theory Spec2Isabelle
  imports Main "HOL-Library.Word"
begin

section \<open>The secure channel of challenge2/main.go\<close>

text \<open>
  The theory embeds \<^verbatim>\<open>src/challenge2/main.go\<close>: the stream wrappers
  \<^verbatim>\<open>sR.Read\<close> and \<^verbatim>\<open>sW.Write\<close>, the handshake of \<^verbatim>\<open>Dial\<close>
  and the echo service \<^verbatim>\<open>Serve\<close>.

  The program calls three collaborators that are not part of the repository: the NaCl
  \<^verbatim>\<open>box\<close> package, the random source \<^verbatim>\<open>rand.Reader\<close> and the
  network (\<^verbatim>\<open>net.Conn\<close>, \<^verbatim>\<open>net.Listener\<close>). The \<^verbatim>\<open>box\<close> package is a
  parameter (a record of functions); the random source and the network are an environment
  that answers every call, and every call the program makes is appended to a trace, so that
  the number and the order of the underlying operations can be stated.
\<close>

subsection \<open>Constants, bytes, errors\<close>

type_synonym byte = "8 word"

definition KeySize :: nat where
  "KeySize = 32"

definition NonceSize :: nat where
  "NonceSize = 24"

text \<open>
  An error value is \<^verbatim>\<open>io.EOF\<close>, an error made by one of the collaborators, or an
  error made by the program with \<^verbatim>\<open>fmt.Errorf\<close> (a fresh value, equal to none of
  the others).
\<close>

datatype error = EOF | IoErr string | Errorf string

text \<open>A Go function either returns or panics.\<close>

datatype 'a outcome = Panic | Return 'a

subsection \<open>Slices and buffers\<close>

text \<open>
  \<^verbatim>\<open>make([]byte, c)\<close> after a callee has stored \<open>data\<close> from index 0 on: the
  buffer keeps its length \<open>c\<close>, and what was not overwritten is zero. The same function
  gives the content of a fixed-size array (\<^verbatim>\<open>[24]byte\<close>, \<^verbatim>\<open>[32]byte\<close>).
\<close>

definition fit :: "nat \<Rightarrow> byte list \<Rightarrow> byte list" where
  "fit c data = take c (data @ replicate c 0)"

text \<open>
  The slice expression \<^verbatim>\<open>bs[lo:hi]\<close> of a slice whose capacity is its length: a
  run-time panic unless \<open>lo \<le> hi \<le> cap\<close>.
\<close>

definition slice :: "'a list \<Rightarrow> nat \<Rightarrow> nat \<Rightarrow> 'a list option" where
  "slice bs lo hi =
     (if lo \<le> hi \<and> hi \<le> length bs then Some (take (hi - lo) (drop lo bs)) else None)"

text \<open>The builtin \<^verbatim>\<open>copy(dst, src)\<close>: the first \<open>min (len dst) (len src)\<close> elements.\<close>

definition copy :: "'a list \<Rightarrow> 'a list \<Rightarrow> 'a list" where
  "copy dst src = take (length dst) src @ drop (length src) dst"

subsection \<open>The collaborators\<close>

text \<open>
  The package \<^verbatim>\<open>golang.org/x/crypto/nacl/box\<close>, as a parameter.
  \<open>box_Seal bx message nonce peersPublicKey privateKey\<close> is what \<^verbatim>\<open>box.Seal\<close>
  appends to its first argument, \<open>box_Open bx box nonce peersPublicKey privateKey\<close> is
  the result of \<^verbatim>\<open>box.Open(nil, ...)\<close> (\<open>None\<close> when it does not verify),
  \<open>box_Overhead\<close> is the constant \<^verbatim>\<open>box.Overhead\<close>, and
  \<open>box_ScalarBaseMult\<close> is how \<^verbatim>\<open>box.GenerateKey\<close> derives the public key from
  the 32 random bytes of the private key.
\<close>

record box =
  box_Overhead :: nat
  box_ScalarBaseMult :: "byte list \<Rightarrow> byte list"
  box_Seal :: "byte list \<Rightarrow> byte list \<Rightarrow> byte list \<Rightarrow> byte list \<Rightarrow> byte list"
  box_Open :: "byte list \<Rightarrow> byte list \<Rightarrow> byte list \<Rightarrow> byte list \<Rightarrow> byte list option"

text \<open>
  The environment. The \<open>k\<close>-th call of a kind (counted from 0) is answered by the
  function of that kind at \<open>k\<close>:
  \<^item> \<open>rand_Read k c\<close>: \<^verbatim>\<open>io.ReadFull(rand.Reader, buf)\<close> with \<open>len buf = c\<close>,
    an error or the bytes;
  \<^item> \<open>conn_Read k c\<close>: \<^verbatim>\<open>Read\<close> of the underlying reader with a buffer of length
    \<open>c\<close>, the bytes stored (their number is the count returned) and the error;
  \<^item> \<open>conn_Write k bs\<close>: \<^verbatim>\<open>Write\<close> of the underlying writer, the count and the
    error;
  \<^item> \<open>net_Accept\<close>, \<open>net_Dial\<close>: the error of \<^verbatim>\<open>l.Accept()\<close> and of
    \<^verbatim>\<open>net.Dial("tcp", addr)\<close>, if any.
\<close>

record env =
  rand_Read :: "nat \<Rightarrow> nat \<Rightarrow> error + byte list"
  conn_Read :: "nat \<Rightarrow> nat \<Rightarrow> byte list \<times> error option"
  conn_Write :: "nat \<Rightarrow> byte list \<Rightarrow> nat \<times> error option"
  net_Accept :: "error option"
  net_Dial :: "string \<Rightarrow> error option"

datatype event =
    EvRand nat
  | EvRead nat
  | EvWrite "byte list"
  | EvAccept
  | EvDial string
  | EvClose

type_synonym trace = "event list"

fun is_rand :: "event \<Rightarrow> bool" where
  "is_rand (EvRand c) = True"
| "is_rand e = False"

fun is_read :: "event \<Rightarrow> bool" where
  "is_read (EvRead c) = True"
| "is_read e = False"

fun is_write :: "event \<Rightarrow> bool" where
  "is_write (EvWrite bs) = True"
| "is_write e = False"

definition calls :: "(event \<Rightarrow> bool) \<Rightarrow> trace \<Rightarrow> nat" where
  "calls kind tr = length (filter kind tr)"

definition io_ReadFull_rand :: "env \<Rightarrow> nat \<Rightarrow> trace \<Rightarrow> (error + byte list) \<times> trace" where
  "io_ReadFull_rand ev c tr =
     ((case rand_Read ev (calls is_rand tr) c of
         Inl e \<Rightarrow> Inl e
       | Inr bs \<Rightarrow> Inr (fit c bs)),
      tr @ [EvRand c])"

definition r_Read :: "env \<Rightarrow> nat \<Rightarrow> trace \<Rightarrow> (byte list \<times> error option) \<times> trace" where
  "r_Read ev c tr = (conn_Read ev (calls is_read tr) c, tr @ [EvRead c])"

definition w_Write :: "env \<Rightarrow> byte list \<Rightarrow> trace \<Rightarrow> (nat \<times> error option) \<times> trace" where
  "w_Write ev bs tr = (conn_Write ev (calls is_write tr) bs, tr @ [EvWrite bs])"

text \<open>
  \<^verbatim>\<open>box.GenerateKey(rand.Reader)\<close>: 32 random bytes are the private key, the public
  key is derived from them; the result is \<open>(pub, priv)\<close>.
\<close>

definition box_GenerateKey ::
  "box \<Rightarrow> env \<Rightarrow> trace \<Rightarrow> (error + byte list \<times> byte list) \<times> trace" where
  "box_GenerateKey bx ev tr =
     (case io_ReadFull_rand ev KeySize tr of
        (Inl e, tr1) \<Rightarrow> (Inl e, tr1)
      | (Inr priv, tr1) \<Rightarrow> (Inr (box_ScalarBaseMult bx priv, priv), tr1))"

subsection \<open>genNonce, SecureReader, SecureWriter\<close>

definition genNonce :: "env \<Rightarrow> trace \<Rightarrow> (error + byte list) \<times> trace" where
  "genNonce ev tr = io_ReadFull_rand ev NonceSize tr"

record sR =
  sR_priv :: "byte list"
  sR_peerPub :: "byte list"

record sW =
  sW_priv :: "byte list"
  sW_peerPub :: "byte list"

definition NewSecureReader :: "byte list \<Rightarrow> byte list \<Rightarrow> sR" where
  "NewSecureReader priv pub = \<lparr>sR_priv = priv, sR_peerPub = pub\<rparr>"

definition NewSecureWriter :: "byte list \<Rightarrow> byte list \<Rightarrow> sW" where
  "NewSecureWriter priv pub = \<lparr>sW_priv = priv, sW_peerPub = pub\<rparr>"

text \<open>
  \<^verbatim>\<open>func (sr *sR) Read(p []byte) (int, error)\<close>. The result is the count, the error
  and the caller's buffer \<open>p\<close> after the call.
\<close>

definition sR_Read ::
  "box \<Rightarrow> env \<Rightarrow> sR \<Rightarrow> byte list \<Rightarrow> trace \<Rightarrow>
     (nat \<times> error option \<times> byte list) outcome \<times> trace" where
  "sR_Read bx ev sr p tr =
     (let c = length p + NonceSize + box_Overhead bx;
          ((data, err), tr1) = r_Read ev c tr;
          bs = fit c data;
          n = length data
      in if err \<noteq> None \<and> err \<noteq> Some EOF then (Return (0, err, p), tr1)
         else
           let nonce = take NonceSize bs
           in (case slice bs NonceSize n of
                 None \<Rightarrow> (Panic, tr1)
               | Some ct \<Rightarrow>
                   (case box_Open bx ct nonce (sR_peerPub sr) (sR_priv sr) of
                      None \<Rightarrow> (Return (0, Some (Errorf ''failed decrypting message''), p), tr1)
                    | Some m \<Rightarrow> (Return (length m, None, copy p m), tr1))))"

text \<open>\<^verbatim>\<open>func (sw *sW) Write(p []byte) (int, error)\<close>.\<close>

definition sW_Write ::
  "box \<Rightarrow> env \<Rightarrow> sW \<Rightarrow> byte list \<Rightarrow> trace \<Rightarrow> (nat \<times> error option) \<times> trace" where
  "sW_Write bx ev sw p tr =
     (case genNonce ev tr of
        (Inl e, tr1) \<Rightarrow> ((0, Some e), tr1)
      | (Inr n, tr1) \<Rightarrow>
          (let out = n @ box_Seal bx p n (sW_peerPub sw) (sW_priv sw)
           in w_Write ev out tr1))"

subsection \<open>Dial\<close>

text \<open>
  The value \<^verbatim>\<open>&sRWC{...}\<close> that \<^verbatim>\<open>Dial\<close> returns: the session, a secure
  reader and a secure writer over the connection.
\<close>

record sRWC =
  Reader :: sR
  Writer :: sW

definition Dial :: "box \<Rightarrow> env \<Rightarrow> string \<Rightarrow> trace \<Rightarrow> (error + sRWC) \<times> trace" where
  "Dial bx ev addr tr =
     (case box_GenerateKey bx ev tr of
        (Inl e, tr1) \<Rightarrow> (Inl e, tr1)
      | (Inr (pub, priv), tr1) \<Rightarrow>
          (case net_Dial ev addr of
             Some e \<Rightarrow> (Inl e, tr1 @ [EvDial addr])
           | None \<Rightarrow>
               (case w_Write ev pub (tr1 @ [EvDial addr]) of
                  ((n, Some e), tr2) \<Rightarrow> (Inl e, tr2)
                | ((n, None), tr2) \<Rightarrow>
                    if n \<noteq> KeySize then (Inl (Errorf ''partial write''), tr2)
                    else
                      (case r_Read ev KeySize tr2 of
                         ((data, Some e), tr3) \<Rightarrow> (Inl e, tr3)
                       | ((data, None), tr3) \<Rightarrow>
                           if length data \<noteq> KeySize then (Inl (Errorf ''partial read''), tr3)
                           else
                             (let peerPub = fit KeySize data
                              in (Inr \<lparr>Reader = NewSecureReader priv peerPub,
                                       Writer = NewSecureWriter priv peerPub\<rparr>, tr3))))))"

subsection \<open>Serve\<close>

text \<open>\<^verbatim>\<open>bufSize := 1 << 15\<close>.\<close>

definition bufSize :: nat where
  "bufSize = 32768"

text \<open>
  \<^verbatim>\<open>Serve\<close> is embedded in three parts that run one after the other: the
  responder handshake (from \<^verbatim>\<open>peerPub := new([KeySize]byte)\<close> to the construction
  of \<open>r\<close> and \<open>w\<close>), the echo (from \<^verbatim>\<open>bufSize := 1 << 15\<close> to the end), and
  the function itself with \<^verbatim>\<open>l.Accept()\<close> and the deferred
  \<^verbatim>\<open>conn.Close()\<close>. An error of the handshake is \<open>Inl\<close>: no reader and writer
  exist then.
\<close>

definition Serve_handshake :: "box \<Rightarrow> env \<Rightarrow> trace \<Rightarrow> (error + sR \<times> sW) \<times> trace" where
  "Serve_handshake bx ev tr =
     (case r_Read ev KeySize tr of
        ((data, Some e), tr1) \<Rightarrow> (Inl e, tr1)
      | ((data, None), tr1) \<Rightarrow>
          if length data \<noteq> KeySize then (Inl (Errorf ''illegal key size''), tr1)
          else
            (let peerPub = fit KeySize data
             in (case box_GenerateKey bx ev tr1 of
                   (Inl e, tr2) \<Rightarrow> (Inl e, tr2)
                 | (Inr (pub, priv), tr2) \<Rightarrow>
                     (case w_Write ev pub tr2 of
                        ((n, Some e), tr3) \<Rightarrow> (Inl e, tr3)
                      | ((n, None), tr3) \<Rightarrow>
                          if n \<noteq> KeySize then (Inl (Errorf ''partial pub key write''), tr3)
                          else
                            (Inr (NewSecureReader priv peerPub, NewSecureWriter priv peerPub),
                             tr3)))))"

definition Serve_echo ::
  "box \<Rightarrow> env \<Rightarrow> sR \<Rightarrow> sW \<Rightarrow> trace \<Rightarrow> error option outcome \<times> trace" where
  "Serve_echo bx ev r w tr =
     (let buf = replicate bufSize 0
      in (case sR_Read bx ev r buf tr of
            (Panic, tr1) \<Rightarrow> (Panic, tr1)
          | (Return (n, Some e, buf'), tr1) \<Rightarrow> (Return (Some e), tr1)
          | (Return (n, None, buf'), tr1) \<Rightarrow>
              (case slice buf' 0 n of
                 None \<Rightarrow> (Panic, tr1)
               | Some q \<Rightarrow>
                   (case sW_Write bx ev w q tr1 of
                      ((j, Some e), tr2) \<Rightarrow> (Return (Some e), tr2)
                    | ((j, None), tr2) \<Rightarrow> (Return None, tr2)))))"

text \<open>
  \<^verbatim>\<open>func Serve(l net.Listener) error\<close>. The result is the error returned (\<open>None\<close>
  for \<^verbatim>\<open>nil\<close>); the deferred \<^verbatim>\<open>conn.Close()\<close> runs when the body returns
  and when it panics.
\<close>

definition Serve :: "box \<Rightarrow> env \<Rightarrow> trace \<Rightarrow> error option outcome \<times> trace" where
  "Serve bx ev tr =
     (case net_Accept ev of
        Some e \<Rightarrow> (Return (Some e), tr @ [EvAccept])
      | None \<Rightarrow>
          (case Serve_handshake bx ev (tr @ [EvAccept]) of
             (Inl e, tr1) \<Rightarrow> (Return (Some e), tr1 @ [EvClose])
           | (Inr (r, w), tr1) \<Rightarrow>
               (case Serve_echo bx ev r w tr1 of
                  (res, tr2) \<Rightarrow> (res, tr2 @ [EvClose]))))"

subsection \<open>What is assumed of the box package\<close>

text \<open>
  The properties of \<^verbatim>\<open>box\<close> that the theorems below name as hypotheses: a sealed
  box is \<open>box_Overhead\<close> bytes longer than its message, a box that opens is
  \<open>box_Overhead\<close> bytes longer than the message it yields, and a box sealed for \<open>B\<close>
  by \<open>A\<close> opens for \<open>B\<close> with the public key of \<open>A\<close>.
\<close>

definition seal_length :: "box \<Rightarrow> bool" where
  "seal_length bx \<longleftrightarrow>
     (\<forall>m n pk sk. length (box_Seal bx m n pk sk) = length m + box_Overhead bx)"

definition open_length :: "box \<Rightarrow> bool" where
  "open_length bx \<longleftrightarrow>
     (\<forall>c n pk sk m. box_Open bx c n pk sk = Some m \<longrightarrow> length c = length m + box_Overhead bx)"

definition open_seal :: "box \<Rightarrow> bool" where
  "open_seal bx \<longleftrightarrow>
     (\<forall>privA privB m n.
        box_Open bx (box_Seal bx m n (box_ScalarBaseMult bx privB) privA) n
          (box_ScalarBaseMult bx privA) privB = Some m)"


text \<open>
  The error classes of the specification, as the values the program returns for them.
\<close>

definition AuthenticationFailure :: "error \<Rightarrow> bool" where
  "AuthenticationFailure e \<longleftrightarrow> e = Errorf ''failed decrypting message''"

definition HandshakeIncomplete :: "error \<Rightarrow> bool" where
  "HandshakeIncomplete e \<longleftrightarrow>
     e = Errorf ''partial write'' \<or> e = Errorf ''partial read'' \<or>
     e = Errorf ''illegal key size'' \<or> e = Errorf ''partial pub key write''"

text \<open>
  The error of a handshake whose transfer was short: the transport's own error when it
  reported one, the handshake's error otherwise.
\<close>

definition short_transfer_error :: "error option \<Rightarrow> error \<Rightarrow> bool" where
  "short_transfer_error terr e \<longleftrightarrow>
     (case terr of Some e' \<Rightarrow> e = e' | None \<Rightarrow> HandshakeIncomplete e)"

subsection \<open>A small box and environments for concrete runs\<close>

text \<open>
  A stand-in for the \<^verbatim>\<open>box\<close> package that satisfies the three properties: the
  public key is the private key, the tag is 16 bytes computed from the two keys, the
  message follows the tag unchanged.
\<close>

definition toy_tag :: "byte list \<Rightarrow> byte list \<Rightarrow> byte list" where
  "toy_tag pk sk = fit 16 (map2 (+) pk sk)"

definition toy_box :: box where
  "toy_box =
     \<lparr>box_Overhead = 16,
      box_ScalarBaseMult = (\<lambda>sk. sk),
      box_Seal = (\<lambda>m n pk sk. toy_tag pk sk @ m),
      box_Open = (\<lambda>c n pk sk.
         if 16 \<le> length c \<and> take 16 c = toy_tag pk sk then Some (drop 16 c) else None)\<rparr>"

text \<open>
  An environment given by the answer to every random read, the answers to the successive
  reads of the connection and the answers to its successive writes; no accept or dial
  error.
\<close>

definition script ::
  "byte list \<Rightarrow> (byte list \<times> error option) list \<Rightarrow> (nat \<times> error option) list \<Rightarrow> env" where
  "script rnd rds wrs =
     \<lparr>rand_Read = (\<lambda>k c. Inr rnd),
      conn_Read = (\<lambda>k c. if k < length rds then rds ! k else ([], Some EOF)),
      conn_Write = (\<lambda>k bs. if k < length wrs then wrs ! k else (length bs, None)),
      net_Accept = None,
      net_Dial = (\<lambda>addr. None)\<rparr>"

text \<open>
  Two key pairs of the small box, a nonce, the message of the end-to-end scenario and the
  frame that carries it from \<open>A\<close> to \<open>B\<close> (and from \<open>B\<close> to \<open>A\<close>: the tag is
  symmetric).
\<close>

definition keyA :: "byte list" where
  "keyA = replicate 32 1"

definition keyB :: "byte list" where
  "keyB = replicate 32 2"

definition nonce0 :: "byte list" where
  "nonce0 = replicate 24 7"

definition hello :: "byte list" where
  "hello = [104, 101, 108, 108, 111]"

definition frame0 :: "byte list" where
  "frame0 = nonce0 @ replicate 16 3 @ hello"

text \<open>The same frame with a tag that no key pair of these runs produces.\<close>

definition frameX :: "byte list" where
  "frameX = nonce0 @ replicate 16 9 @ hello"

text \<open>
  The echo service with key \<open>B\<close>, a client with key \<open>A\<close> that sends \<open>frame0\<close>,
  and the frame the service sends back (its nonce is the first 24 bytes the random source
  gives).
\<close>

definition echo_env :: env where
  "echo_env = script keyB [(keyA, None), (frame0, None)] []"

definition echo_frame :: "byte list" where
  "echo_frame = replicate 24 2 @ replicate 16 3 @ hello"

section \<open>Lemmas\<close>

subsection \<open>Buffers, traces and the small box\<close>

lemma length_fit: "length (fit c d) = c"
  by (simp add: fit_def)

lemma take_fit: "k \<le> length d \<Longrightarrow> k \<le> c \<Longrightarrow> take k (fit c d) = take k d"
  by (simp add: fit_def)

lemma slice_fit:
  "lo \<le> length d \<Longrightarrow> length d \<le> c \<Longrightarrow> slice (fit c d) lo (length d) = Some (drop lo d)"
  by (simp add: slice_def fit_def)

lemma copy_prefix: "length src \<le> length dst \<Longrightarrow> copy dst src = src @ drop (length src) dst"
  by (simp add: copy_def)

lemma calls_append: "calls kind (tr @ tr') = calls kind tr + calls kind tr'"
  by (simp add: calls_def)

lemma calls_simps:
  "calls is_write [EvRand c] = 0" "calls is_read [EvRand c] = 0"
  "calls is_rand [EvRand c] = 1" "calls is_write [EvWrite bs] = 1"
  "calls is_read [EvRead c] = 1" "calls is_read [EvWrite bs] = 0"
  "calls is_write [EvRead c] = 0" "calls is_rand [EvRead c] = 0"
  "calls is_rand [EvWrite bs] = 0" "calls kind [] = 0"
  by (simp_all add: calls_def)

lemma map2_plus_commute: "map2 (+) xs ys = map2 (+) ys (xs :: byte list)"
proof (induction xs arbitrary: ys)
  case Nil
  then show ?case by simp
next
  case (Cons x xs)
  then show ?case by (cases ys) (simp_all add: add.commute)
qed

lemma toy_tag_commute: "toy_tag pk sk = toy_tag sk pk"
  by (simp add: toy_tag_def map2_plus_commute)

lemma length_toy_tag: "length (toy_tag pk sk) = 16"
  by (simp add: toy_tag_def length_fit)

lemma toy_seal_length: "seal_length toy_box"
  by (simp add: seal_length_def toy_box_def length_toy_tag)

lemma toy_open_length: "open_length toy_box"
  by (auto simp: open_length_def toy_box_def split: if_splits)

lemma toy_open_seal: "open_seal toy_box"
  by (simp add: open_seal_def toy_box_def length_toy_tag toy_tag_commute)

lemma map2_replicate: "map2 f (replicate n x) (replicate n y) = replicate n (f x y)"
  by (induction n) simp_all

lemma toy_tag_AB: "toy_tag keyA keyB = replicate 16 3" "toy_tag keyB keyA = replicate 16 3"
  by (simp_all add: toy_tag_def keyA_def keyB_def map2_replicate fit_def)


subsection \<open>SecureReader: the single read and its answer\<close>

lemma sR_Read_trace:
  "snd (sR_Read bx ev sr p tr) = tr @ [EvRead (length p + NonceSize + box_Overhead bx)]"
  by (simp add: sR_Read_def r_Read_def Let_def split: prod.splits option.splits)

lemma sR_Read_short:
  assumes "conn_Read ev (calls is_read tr) (length p + NonceSize + box_Overhead bx) = (data, err)"
    and "err = None \<or> err = Some EOF"
    and "length data < NonceSize \<or> length p + NonceSize + box_Overhead bx < length data"
  shows "fst (sR_Read bx ev sr p tr) = Panic"
  using assms by (auto simp: sR_Read_def r_Read_def Let_def slice_def length_fit)

lemma sR_Read_open:
  assumes "conn_Read ev (calls is_read tr) (length p + NonceSize + box_Overhead bx) = (data, err)"
    and "err = None \<or> err = Some EOF"
    and "NonceSize \<le> length data"
    and "length data \<le> length p + NonceSize + box_Overhead bx"
  shows "fst (sR_Read bx ev sr p tr) =
    (case box_Open bx (drop NonceSize data) (take NonceSize data) (sR_peerPub sr) (sR_priv sr) of
       None \<Rightarrow> Return (0, Some (Errorf ''failed decrypting message''), p)
     | Some m \<Rightarrow> Return (length m, None, copy p m))"
  using assms
  by (auto simp: sR_Read_def r_Read_def Let_def slice_fit take_fit split: option.splits)

lemma sR_Read_unfold:
  assumes "conn_Read ev (calls is_read tr) (length p + NonceSize + box_Overhead bx) = (data, err)"
  shows "fst (sR_Read bx ev sr p tr) =
    (if err \<noteq> None \<and> err \<noteq> Some EOF then Return (0, err, p)
     else if length data < NonceSize \<or> length p + NonceSize + box_Overhead bx < length data
       then Panic
     else (case box_Open bx (drop NonceSize data) (take NonceSize data)
                 (sR_peerPub sr) (sR_priv sr) of
       None \<Rightarrow> Return (0, Some (Errorf ''failed decrypting message''), p)
     | Some m \<Rightarrow> Return (length m, None, copy p m)))"
proof (cases "err \<noteq> None \<and> err \<noteq> Some EOF")
  case True
  with assms show ?thesis
    by (auto simp: sR_Read_def r_Read_def Let_def)
next
  case False
  then have ok: "err = None \<or> err = Some EOF" by auto
  show ?thesis
  proof (cases "length data < NonceSize \<or> length p + NonceSize + box_Overhead bx < length data")
    case True
    with ok sR_Read_short[OF assms] show ?thesis by auto
  next
    case False
    with ok sR_Read_open[OF assms] show ?thesis by auto
  qed
qed

lemma sR_Read_count_bound:
  assumes "open_length bx" and "fst (sR_Read bx ev sr p tr) = Return (k, err, p')"
  shows "k \<le> length p"
proof -
  let ?c = "length p + NonceSize + box_Overhead bx"
  obtain data e where rd: "conn_Read ev (calls is_read tr) ?c = (data, e)"
    by (cases "conn_Read ev (calls is_read tr) ?c")
  have "length m \<le> length p"
    if "box_Open bx (drop NonceSize data) nonce pk sk = Some m" and "length data \<le> ?c"
    for m nonce pk sk
  proof -
    from that(1) assms(1) have "length (drop NonceSize data) = length m + box_Overhead bx"
      unfolding open_length_def by blast
    with that(2) show ?thesis by simp
  qed
  with assms(2) show ?thesis
    unfolding sR_Read_unfold[OF rd]
    by (auto split: if_splits option.splits)
qed

subsection \<open>SecureWriter: the nonce and the single write\<close>

lemma genNonce_unfold:
  "genNonce ev tr =
     ((case rand_Read ev (calls is_rand tr) 24 of Inl e \<Rightarrow> Inl e | Inr r \<Rightarrow> Inr (fit 24 r)),
      tr @ [EvRand 24])"
  by (simp add: genNonce_def io_ReadFull_rand_def NonceSize_def)

lemma genNonce_length: "genNonce ev tr = (Inr nonce, tr1) \<Longrightarrow> length nonce = 24"
  by (auto simp: genNonce_unfold length_fit split: sum.splits)

lemma genNonce_trace: "snd (genNonce ev tr) = tr @ [EvRand 24]"
  by (simp add: genNonce_unfold)

lemma sW_Write_no_nonce:
  assumes "genNonce ev tr = (Inl e, tr1)"
  shows "sW_Write bx ev sw p tr = ((0, Some e), tr @ [EvRand 24])"
  using assms genNonce_trace [of ev tr] by (simp add: sW_Write_def)

lemma sW_Write_nonce:
  assumes "genNonce ev tr = (Inr nonce, tr1)"
  shows "sW_Write bx ev sw p tr =
    (conn_Write ev (calls is_write tr) (nonce @ box_Seal bx p nonce (sW_peerPub sw) (sW_priv sw)),
     tr @ [EvRand 24, EvWrite (nonce @ box_Seal bx p nonce (sW_peerPub sw) (sW_priv sw))])"
  using assms genNonce_trace [of ev tr]
  by (simp add: sW_Write_def w_Write_def Let_def calls_append calls_simps)

lemma sW_Write_emits_nonce:
  assumes "snd (sW_Write bx ev sw p tr) = tr @ [EvRand 24, EvWrite frame]"
  obtains nonce where "genNonce ev tr = (Inr nonce, tr @ [EvRand 24])"
proof (cases "fst (genNonce ev tr)")
  case (Inl e)
  with assms sW_Write_no_nonce [of ev tr e "snd (genNonce ev tr)" bx sw p] show ?thesis
    by (simp add: prod_eq_iff)
next
  case (Inr nonce)
  with that [of nonce] genNonce_trace [of ev tr] show ?thesis
    by (simp add: prod_eq_iff)
qed

lemma sW_Write_success_nonce:
  assumes "sW_Write bx ev sw p tr = ((k, None), tr')"
  obtains nonce where "genNonce ev tr = (Inr nonce, tr @ [EvRand 24])"
proof (cases "fst (genNonce ev tr)")
  case (Inl e)
  with assms sW_Write_no_nonce [of ev tr e "snd (genNonce ev tr)" bx sw p] show ?thesis
    by (simp add: prod_eq_iff)
next
  case (Inr nonce)
  with that [of nonce] genNonce_trace [of ev tr] show ?thesis
    by (simp add: prod_eq_iff)
qed

subsection \<open>Handshake and echo\<close>

lemma box_GenerateKey_trace: "snd (box_GenerateKey bx ev tr) = tr @ [EvRand 32]"
  by (simp add: box_GenerateKey_def io_ReadFull_rand_def KeySize_def split: sum.splits)

lemma box_GenerateKey_trace': "box_GenerateKey bx ev tr = (res, tr1) \<Longrightarrow> tr1 = tr @ [EvRand 32]"
  using box_GenerateKey_trace [of bx ev tr] by simp

lemma Dial_short_write:
  assumes "box_GenerateKey bx ev tr = (Inr (pub, priv), tr1)" and "net_Dial ev addr = None"
    and "conn_Write ev (calls is_write tr) pub = (n, werr)" and "n < 32"
  shows "\<exists>e. Dial bx ev addr tr = (Inl e, tr @ [EvRand 32, EvDial addr, EvWrite pub]) \<and>
           short_transfer_error werr e"
  using assms box_GenerateKey_trace' [OF assms(1)]
  by (cases werr)
     (simp_all add: Dial_def w_Write_def calls_def KeySize_def short_transfer_error_def
        HandshakeIncomplete_def)

lemma Dial_short_read:
  assumes "box_GenerateKey bx ev tr = (Inr (pub, priv), tr1)" and "net_Dial ev addr = None"
    and "conn_Write ev (calls is_write tr) pub = (32, None)"
    and "conn_Read ev (calls is_read tr) 32 = (data, rerr)" and "length data < 32"
  shows "\<exists>e. Dial bx ev addr tr =
             (Inl e, tr @ [EvRand 32, EvDial addr, EvWrite pub, EvRead 32]) \<and>
           short_transfer_error rerr e"
  using assms box_GenerateKey_trace' [OF assms(1)]
  by (cases rerr)
     (simp_all add: Dial_def w_Write_def r_Read_def calls_def KeySize_def
        short_transfer_error_def HandshakeIncomplete_def)

lemma Serve_handshake_short_read:
  assumes "conn_Read ev (calls is_read tr) 32 = (data, rerr)" and "length data < 32"
  shows "\<exists>e. Serve_handshake bx ev tr = (Inl e, tr @ [EvRead 32]) \<and> short_transfer_error rerr e"
  using assms
  by (cases rerr)
     (simp_all add: Serve_handshake_def r_Read_def KeySize_def
        short_transfer_error_def HandshakeIncomplete_def)

lemma Serve_handshake_short_write:
  assumes "conn_Read ev (calls is_read tr) 32 = (data, None)" and "length data = 32"
    and "box_GenerateKey bx ev (tr @ [EvRead 32]) = (Inr (pub, priv), tr1)"
    and "conn_Write ev (calls is_write tr) pub = (n, werr)" and "n < 32"
  shows "\<exists>e. Serve_handshake bx ev tr = (Inl e, tr @ [EvRead 32, EvRand 32, EvWrite pub]) \<and>
           short_transfer_error werr e"
  using assms box_GenerateKey_trace' [OF assms(3)]
  by (cases werr)
     (simp_all add: Serve_handshake_def r_Read_def w_Write_def calls_def KeySize_def
        short_transfer_error_def HandshakeIncomplete_def)

lemma Serve_handshake_error:
  assumes "net_Accept ev = None" and "Serve_handshake bx ev (tr @ [EvAccept]) = (Inl e, tr1)"
  shows "Serve bx ev tr = (Return (Some e), tr1 @ [EvClose])"
  using assms by (simp add: Serve_def)


lemma sR_Read_buffer_length:
  assumes "fst (sR_Read bx ev sr p tr) = Return (k, err, p')"
  shows "length p' = length p"
proof -
  let ?c = "length p + NonceSize + box_Overhead bx"
  obtain data e where rd: "conn_Read ev (calls is_read tr) ?c = (data, e)"
    by (cases "conn_Read ev (calls is_read tr) ?c")
  from assms show ?thesis
    unfolding sR_Read_unfold [OF rd]
    by (auto simp: copy_def split: if_splits option.splits)
qed

lemma Serve_handshake_trace:
  assumes "Serve_handshake bx ev tr = (Inr (r, w), tr1)"
  shows "\<exists>pub. tr1 = tr @ [EvRead 32, EvRand 32, EvWrite pub]"
proof -
  obtain res where gk: "box_GenerateKey bx ev (tr @ [EvRead 32]) = (res, (tr @ [EvRead 32]) @ [EvRand 32])"
    using box_GenerateKey_trace [of bx ev "tr @ [EvRead 32]"]
    by (cases "box_GenerateKey bx ev (tr @ [EvRead 32])") simp
  from assms show ?thesis
    by (auto simp: Serve_handshake_def r_Read_def w_Write_def KeySize_def gk Let_def
        split: prod.splits option.splits if_splits sum.splits)
qed

lemma Serve_echo_read_error:
  assumes "sR_Read bx ev r (replicate bufSize 0) tr = (Return (k, Some e, b), tr1)"
  shows "Serve_echo bx ev r w tr = (Return (Some e), tr1)"
  using assms by (simp add: Serve_echo_def)

lemma Serve_echo_write:
  assumes "open_length bx"
    and "sR_Read bx ev r (replicate bufSize 0) tr = (Return (k, None, b), tr1)"
    and "sW_Write bx ev w (take k b) tr1 = ((j, werr), tr2)"
  shows "k \<le> bufSize" and "length (take k b) = k"
    and "Serve_echo bx ev r w tr = (Return werr, tr2)"
proof -
  from assms(2) have rd: "fst (sR_Read bx ev r (replicate bufSize 0) tr) = Return (k, None, b)"
    by simp
  from sR_Read_count_bound [OF assms(1) rd] show k: "k \<le> bufSize" by simp
  from sR_Read_buffer_length [OF rd] have len: "length b = bufSize" by simp
  with k show "length (take k b) = k" by simp
  from k len have "slice b 0 k = Some (take k b)" by (simp add: slice_def)
  with assms(2,3) show "Serve_echo bx ev r w tr = (Return werr, tr2)"
    by (cases werr) (simp_all add: Serve_echo_def)
qed

lemma Serve_success_trace:
  assumes "fst (Serve bx ev tr) = Return None"
  shows "\<exists>pub frame. snd (Serve bx ev tr) =
     tr @ [EvAccept, EvRead 32, EvRand 32, EvWrite pub,
           EvRead (bufSize + 24 + box_Overhead bx), EvRand 24, EvWrite frame, EvClose]"
proof -
  from assms have acc: "net_Accept ev = None"
    by (auto simp: Serve_def split: option.splits)
  obtain hs tr1 where hs: "Serve_handshake bx ev (tr @ [EvAccept]) = (hs, tr1)"
    by (cases "Serve_handshake bx ev (tr @ [EvAccept])")
  with assms acc obtain r w where rw: "hs = Inr (r, w)"
    by (cases hs) (auto simp: Serve_def)
  from Serve_handshake_trace [OF hs [unfolded rw]] obtain pub
    where tr1: "tr1 = (tr @ [EvAccept]) @ [EvRead 32, EvRand 32, EvWrite pub]" by blast
  obtain res tr2 where rd: "sR_Read bx ev r (replicate bufSize 0) tr1 = (res, tr2)"
    by (cases "sR_Read bx ev r (replicate bufSize 0) tr1")
  from sR_Read_trace [of bx ev r "replicate bufSize 0" tr1] rd
  have tr2: "tr2 = tr1 @ [EvRead (bufSize + 24 + box_Overhead bx)]"
    by (simp add: NonceSize_def)
  from assms acc hs rw rd obtain k b q j tr3 where
    res: "res = Return (k, None, b)" and "slice b 0 k = Some q"
    and wr: "sW_Write bx ev w q tr2 = ((j, None), tr3)"
    and out: "snd (Serve bx ev tr) = tr3 @ [EvClose]"
    by (auto simp: Serve_def Serve_echo_def Let_def
        split: prod.splits outcome.splits option.splits)
  from wr obtain nonce where g: "genNonce ev tr2 = (Inr nonce, tr2 @ [EvRand 24])"
    by (rule sW_Write_success_nonce)
  from wr sW_Write_nonce [OF g, of bx w q] obtain frame
    where "tr3 = tr2 @ [EvRand 24, EvWrite frame]" by auto
  with out tr2 tr1 show ?thesis by simp
qed

subsection \<open>Concrete runs\<close>

lemma run_Read_hello:
  "fst (sR_Read toy_box (script [] [(frame0, None)] []) (NewSecureReader keyB keyA)
         (replicate 5 0) []) = Return (5, None, hello)"
  by (simp add: sR_Read_def r_Read_def script_def calls_def toy_box_def frame0_def nonce0_def
      NonceSize_def hello_def NewSecureReader_def toy_tag_AB copy_def fit_def slice_def Let_def)

lemma run_Open_frameX:
  "box_Open toy_box (drop NonceSize frameX) (take NonceSize frameX)
     (sR_peerPub (NewSecureReader keyB keyA)) (sR_priv (NewSecureReader keyB keyA)) = None"
  by (simp add: toy_box_def frameX_def nonce0_def NonceSize_def NewSecureReader_def toy_tag_AB)

lemma run_genNonce: "genNonce (script nonce0 rds wrs) [] = (Inr nonce0, [EvRand 24])"
  by (simp add: genNonce_unfold script_def calls_def fit_def nonce0_def)

lemma run_Seal_hello:
  "nonce0 @ box_Seal toy_box hello nonce0 (sW_peerPub (NewSecureWriter keyA keyB))
     (sW_priv (NewSecureWriter keyA keyB)) = frame0"
  by (simp add: toy_box_def NewSecureWriter_def toy_tag_AB frame0_def)

lemma run_Write_hello:
  "sW_Write toy_box (script nonce0 [] []) (NewSecureWriter keyA keyB) hello [] =
     ((45, None), [EvRand 24, EvWrite frame0])"
  using sW_Write_nonce [OF run_genNonce, where bx = toy_box and sw = "NewSecureWriter keyA keyB"
      and p = hello and rds1 = "[]" and wrs1 = "[]"]
  by (simp add: run_Seal_hello) (simp add: script_def calls_def frame0_def nonce0_def hello_def)

lemma fit_keys: "fit 32 keyA = keyA" "fit 32 keyB = keyB"
  by (simp_all add: fit_def keyA_def keyB_def)

lemma run_GenerateKey:
  "box_GenerateKey toy_box (script keyA rds wrs) tr = (Inr (keyA, keyA), tr @ [EvRand 32])"
  "box_GenerateKey toy_box (script keyB rds wrs) tr = (Inr (keyB, keyB), tr @ [EvRand 32])"
  by (simp_all add: box_GenerateKey_def io_ReadFull_rand_def script_def KeySize_def toy_box_def
      fit_keys)

lemma run_Dial_partial_write:
  "fst (Dial toy_box (script keyA [] [(16, None)]) ''localhost:8080'' [])
     = Inl (Errorf ''partial write'')"
  by (simp add: Dial_def box_GenerateKey_def io_ReadFull_rand_def w_Write_def script_def
      calls_def KeySize_def toy_box_def keyA_def fit_def)

lemma run_Dial_partial_read:
  "fst (Dial toy_box (script keyA [(take 16 keyB, None)] []) ''localhost:8080'' [])
     = Inl (Errorf ''partial read'')"
  by (simp add: Dial_def box_GenerateKey_def io_ReadFull_rand_def w_Write_def r_Read_def
      script_def calls_def KeySize_def toy_box_def keyA_def keyB_def fit_def)

lemma run_Serve_illegal_key_size:
  "Serve toy_box (script keyB [(take 16 keyA, None)] []) []
     = (Return (Some (Errorf ''illegal key size'')), [EvAccept, EvRead 32, EvClose])"
  by (simp add: Serve_def Serve_handshake_def r_Read_def script_def calls_def KeySize_def
      keyA_def)

lemma run_Serve_partial_write:
  "Serve toy_box (script keyB [(keyA, None)] [(16, None)]) []
     = (Return (Some (Errorf ''partial pub key write'')),
        [EvAccept, EvRead 32, EvRand 32, EvWrite keyB, EvClose])"
  by (simp add: Serve_def Serve_handshake_def box_GenerateKey_def io_ReadFull_rand_def
      r_Read_def w_Write_def script_def calls_def KeySize_def toy_box_def keyA_def fit_keys)

lemma run_Serve_handshake:
  "Serve_handshake toy_box (script keyB ((keyA, None) # rds) []) ([] @ [EvAccept]) =
     (Inr (NewSecureReader keyB keyA, NewSecureWriter keyB keyA),
      [EvAccept, EvRead 32, EvRand 32, EvWrite keyB])"
  by (simp add: Serve_handshake_def box_GenerateKey_def io_ReadFull_rand_def r_Read_def
      w_Write_def script_def calls_def KeySize_def toy_box_def fit_keys)
    (simp add: keyA_def keyB_def)

lemma run_Serve_Read:
  "sR_Read toy_box echo_env (NewSecureReader keyB keyA) (replicate bufSize 0)
      [EvAccept, EvRead 32, EvRand 32, EvWrite keyB] =
     (Return (5, None, hello @ replicate 32763 0),
      [EvAccept, EvRead 32, EvRand 32, EvWrite keyB, EvRead 32808])"
  by (simp add: sR_Read_def r_Read_def echo_env_def script_def calls_def toy_box_def frame0_def
      nonce0_def NonceSize_def hello_def NewSecureReader_def toy_tag_AB copy_def fit_def
      slice_def Let_def bufSize_def)


lemma run_Serve_Read_EOF:
  "sR_Read toy_box (script keyB [(keyA, None)] []) (NewSecureReader keyB keyA)
      (replicate bufSize 0) [EvAccept, EvRead 32, EvRand 32, EvWrite keyB] =
     (Panic, [EvAccept, EvRead 32, EvRand 32, EvWrite keyB, EvRead 32808])"
  by (simp add: sR_Read_def r_Read_def script_def calls_def toy_box_def NonceSize_def
      slice_def fit_def Let_def bufSize_def)

lemma run_Serve_Write:
  "sW_Write toy_box echo_env (NewSecureWriter keyB keyA) (take 5 (hello @ replicate 32763 0))
      [EvAccept, EvRead 32, EvRand 32, EvWrite keyB, EvRead 32808] =
     ((45, None),
      [EvAccept, EvRead 32, EvRand 32, EvWrite keyB, EvRead 32808, EvRand 24,
       EvWrite echo_frame])"
  by (simp add: sW_Write_def genNonce_def io_ReadFull_rand_def w_Write_def echo_env_def
      script_def calls_def toy_box_def NonceSize_def NewSecureWriter_def toy_tag_AB
      echo_frame_def Let_def)
    (simp add: hello_def fit_def keyB_def)

section \<open>SecureReader\<close>

text \<open>
  Claim C7. Every call of \<^verbatim>\<open>Read\<close> with a buffer of length \<open>n\<close> issues exactly one
  read of the underlying source, with a staging buffer of \<open>n + 24 + box_Overhead\<close>
  bytes (so it asks for at most that many); when the read brings at least 24 bytes and no
  error other than end-of-stream, the first 24 bytes are the nonce and the rest is the
  box given to \<^verbatim>\<open>box.Open\<close>, whose answer decides the result.
\<close>

theorem sR_Read_single_read:
  "snd (sR_Read bx ev sr p tr) = tr @ [EvRead (length p + 24 + box_Overhead bx)] \<and>
   (\<forall>data err.
      conn_Read ev (calls is_read tr) (length p + 24 + box_Overhead bx) = (data, err) \<longrightarrow>
      (err = None \<or> err = Some EOF) \<longrightarrow> 24 \<le> length data \<longrightarrow>
      length data \<le> length p + 24 + box_Overhead bx \<longrightarrow>
      fst (sR_Read bx ev sr p tr) =
        (case box_Open bx (drop 24 data) (take 24 data) (sR_peerPub sr) (sR_priv sr) of
           None \<Rightarrow> Return (0, Some (Errorf ''failed decrypting message''), p)
         | Some m \<Rightarrow> Return (length m, None, copy p m)))"
  using sR_Read_trace [of bx ev sr p tr] sR_Read_open [of ev tr p bx _ _ sr]
  by (simp add: NonceSize_def)

theorem sR_Read_single_read_witness:
  "sR_Read toy_box (script [] [(frame0, None)] []) (NewSecureReader keyB keyA) (replicate 5 0) []
     = (Return (5, None, hello), [EvRead 45]) \<and>
   take 24 frame0 = nonce0 \<and> drop 24 frame0 = replicate 16 3 @ hello"
proof -
  let ?ev = "script [] [(frame0, None)] []"
  have rd: "conn_Read ?ev (calls is_read []) (length (replicate 5 (0::byte)) + 24 + box_Overhead toy_box)
      = (frame0, None)"
    by (simp add: script_def calls_def)
  have len: "24 \<le> length frame0"
    "length frame0 \<le> length (replicate 5 (0::byte)) + 24 + box_Overhead toy_box"
    by (simp_all add: frame0_def nonce0_def hello_def toy_box_def)
  from sR_Read_single_read [of toy_box ?ev "NewSecureReader keyB keyA" "replicate 5 0" "[]"]
    rd len
  have "snd (sR_Read toy_box ?ev (NewSecureReader keyB keyA) (replicate 5 0) []) = [EvRead 45]"
    by (simp add: toy_box_def)
  with run_Read_hello show ?thesis
    by (simp add: prod_eq_iff frame0_def nonce0_def)
qed

text \<open>
  Claim C3. When the box taken from the underlying read does not verify,
  \<^verbatim>\<open>Read\<close> returns the error \<^verbatim>\<open>failed decrypting message\<close> (the
  authentication failure) with a count of 0, and the caller's buffer is as it was.
\<close>

theorem sR_Read_authentication_failure:
  assumes "conn_Read ev (calls is_read tr) (length p + NonceSize + box_Overhead bx) = (data, err)"
    and "err = None \<or> err = Some EOF"
    and "NonceSize \<le> length data"
    and "length data \<le> length p + NonceSize + box_Overhead bx"
    and "box_Open bx (drop NonceSize data) (take NonceSize data) (sR_peerPub sr) (sR_priv sr)
           = None"
  shows "\<exists>e. AuthenticationFailure e \<and> fst (sR_Read bx ev sr p tr) = Return (0, Some e, p)"
  using assms(2-5) unfolding sR_Read_unfold [OF assms(1)] AuthenticationFailure_def
  by auto

theorem sR_Read_authentication_failure_witness:
  "box_Open toy_box (drop NonceSize frameX) (take NonceSize frameX)
     (sR_peerPub (NewSecureReader keyB keyA)) (sR_priv (NewSecureReader keyB keyA)) = None \<and>
   fst (sR_Read toy_box (script [] [(frameX, None)] []) (NewSecureReader keyB keyA)
          (replicate 5 0) [])
     = Return (0, Some (Errorf ''failed decrypting message''), replicate 5 0)"
proof -
  let ?ev = "script [] [(frameX, None)] []"
  let ?p = "replicate 5 (0::byte)"
  have rd: "conn_Read ?ev (calls is_read []) (length ?p + NonceSize + box_Overhead toy_box)
      = (frameX, None)"
    by (simp add: script_def calls_def)
  have len: "NonceSize \<le> length frameX"
    "length frameX \<le> length ?p + NonceSize + box_Overhead toy_box"
    by (simp_all add: frameX_def nonce0_def hello_def NonceSize_def toy_box_def)
  have ok: "(None :: error option) = None \<or> (None :: error option) = Some EOF"
    by simp
  from sR_Read_authentication_failure [OF rd ok len run_Open_frameX] run_Open_frameX
  show ?thesis by (auto simp: AuthenticationFailure_def)
qed

text \<open>
  Claim C10. \<^verbatim>\<open>Read\<close> never reports more bytes than the caller's buffer holds:
  a box that opens is \<open>box_Overhead\<close> bytes longer than its message, and the staging
  buffer leaves room for at most \<open>len(p) + box_Overhead\<close> bytes of box, so whenever
  \<^verbatim>\<open>Read\<close> returns, its count is at most \<open>len(p)\<close>.
\<close>

theorem sR_Read_count_le:
  assumes "open_length bx" and "fst (sR_Read bx ev sr p tr) = Return (k, err, p')"
  shows "k \<le> length p"
  using assms by (rule sR_Read_count_bound)

theorem sR_Read_count_le_witness:
  "open_length toy_box \<and>
   fst (sR_Read toy_box (script [] [(frame0, None)] []) (NewSecureReader keyB keyA)
         (replicate 5 0) []) = Return (5, None, hello) \<and>
   (5::nat) \<le> length (replicate 5 (0::byte))"
  using sR_Read_count_le [OF toy_open_length run_Read_hello] toy_open_length run_Read_hello
  by simp

text \<open>
  Claim C2. The claim is that an end-of-stream with zero bytes read is reported to the
  caller as such. The run below is that case: the underlying read stores nothing and
  returns \<^verbatim>\<open>io.EOF\<close>. \<^verbatim>\<open>Read\<close> lets \<^verbatim>\<open>io.EOF\<close> pass its error check
  and evaluates \<^verbatim>\<open>bs[NonceSize:n]\<close> with \<open>n = 0\<close>, which panics: no error is
  returned at all.
\<close>

theorem sR_Read_EOF_panics:
  "conn_Read (script [] [([], Some EOF)] []) 0 (5 + NonceSize + box_Overhead toy_box)
     = ([], Some EOF) \<and>
   sR_Read toy_box (script [] [([], Some EOF)] []) (NewSecureReader keyB keyA) (replicate 5 0) []
     = (Panic, [EvRead 45])"
  by (simp add: sR_Read_def r_Read_def script_def calls_def toy_box_def NonceSize_def
      NewSecureReader_def fit_def slice_def Let_def)

section \<open>SecureWriter\<close>








section \<open>Round trip\<close>

text \<open>
  Claim C1. Let the writer hold \<open>(privA, pubB)\<close> and the reader \<open>(privB, pubA)\<close>,
  with \<open>pubA\<close>, \<open>pubB\<close> the public keys of \<open>privA\<close>, \<open>privB\<close>. If
  \<^verbatim>\<open>Write\<close> of \<open>m\<close> emits \<open>frame\<close>, the underlying read of a \<^verbatim>\<open>Read\<close>
  brings exactly \<open>frame\<close>, and \<open>m\<close> fits in the caller's buffer \<open>p\<close>, then
  \<^verbatim>\<open>Read\<close> returns the count \<open>len(m)\<close> and no error, and \<open>p\<close> begins with
  \<open>m\<close>.
\<close>

theorem round_trip:
  assumes "seal_length bx" and "open_seal bx"
    and "sw = NewSecureWriter privA (box_ScalarBaseMult bx privB)"
    and "sr = NewSecureReader privB (box_ScalarBaseMult bx privA)"
    and "snd (sW_Write bx evW sw m trW) = trW @ [EvRand 24, EvWrite frame]"
    and "conn_Read evR (calls is_read trR) (length p + NonceSize + box_Overhead bx) = (frame, err)"
    and "err = None \<or> err = Some EOF"
    and "length m \<le> length p"
  shows "fst (sR_Read bx evR sr p trR) = Return (length m, None, m @ drop (length m) p)"
proof -
  from assms(5) obtain nonce where g: "genNonce evW trW = (Inr nonce, trW @ [EvRand 24])"
    by (rule sW_Write_emits_nonce)
  let ?ct = "box_Seal bx m nonce (sW_peerPub sw) (sW_priv sw)"
  from assms(5) sW_Write_nonce [OF g, of bx sw m] have frame: "frame = nonce @ ?ct"
    by simp
  from g have len: "length nonce = 24" by (rule genNonce_length)
  from assms(1) have sl: "length ?ct = length m + box_Overhead bx"
    by (simp add: seal_length_def)
  from assms(2,3,4) have op: "box_Open bx ?ct nonce (sR_peerPub sr) (sR_priv sr) = Some m"
    by (simp add: open_seal_def NewSecureWriter_def NewSecureReader_def)
  from frame len sl assms(8) have fits: "NonceSize \<le> length frame"
    "length frame \<le> length p + NonceSize + box_Overhead bx"
    "drop NonceSize frame = ?ct" "take NonceSize frame = nonce"
    by (simp_all add: NonceSize_def)
  from sR_Read_open [OF assms(6,7) fits(1,2), of sr] fits(3,4) op assms(8)
  show ?thesis by (simp add: copy_prefix)
qed

theorem round_trip_witness:
  "seal_length toy_box \<and> open_seal toy_box \<and>
   snd (sW_Write toy_box (script nonce0 [] []) (NewSecureWriter keyA keyB) hello [])
     = [EvRand 24, EvWrite frame0] \<and>
   fst (sR_Read toy_box (script [] [(frame0, None)] []) (NewSecureReader keyB keyA)
          (replicate 8 0) []) = Return (5, None, hello @ replicate 3 0)"
proof -
  let ?evR = "script [] [(frame0, None)] []"
  let ?p = "replicate 8 (0::byte)"
  have sw: "NewSecureWriter keyA keyB = NewSecureWriter keyA (box_ScalarBaseMult toy_box keyB)"
    and sr: "NewSecureReader keyB keyA = NewSecureReader keyB (box_ScalarBaseMult toy_box keyA)"
    by (simp_all add: toy_box_def)
  have wr: "snd (sW_Write toy_box (script nonce0 [] []) (NewSecureWriter keyA keyB) hello [])
     = [] @ [EvRand 24, EvWrite frame0]"
    by (simp add: run_Write_hello)
  have rd: "conn_Read ?evR (calls is_read []) (length ?p + NonceSize + box_Overhead toy_box)
     = (frame0, None)"
    by (simp add: script_def calls_def)
  have ok: "(None :: error option) = None \<or> (None :: error option) = Some EOF"
    by simp
  have le: "length hello \<le> length ?p"
    by (simp add: hello_def)
  from round_trip [OF toy_seal_length toy_open_seal sw sr wr rd ok le]
    toy_seal_length toy_open_seal wr
  show ?thesis by (simp add: hello_def)
qed

section \<open>Handshake\<close>

text \<open>
  Claim C5, as amended. In both roles, a handshake read or write that transfers fewer than
  32 bytes ends the handshake with an error and without a session: the error is the
  transport's own error when the transfer reported one, and one of the handshake's errors
  (\<^verbatim>\<open>partial write\<close>, \<^verbatim>\<open>partial read\<close>, \<^verbatim>\<open>illegal key size\<close>,
  \<^verbatim>\<open>partial pub key write\<close>) when it reported none. \<^verbatim>\<open>Dial\<close> returns
  \<open>Inl\<close>, that is no \<^verbatim>\<open>sRWC\<close>; the handshake of \<^verbatim>\<open>Serve\<close> returns
  \<open>Inl\<close>, that is no reader and writer, and \<^verbatim>\<open>Serve\<close> closes the connection
  and returns the error.
\<close>

theorem handshake_short_transfer:
  "(box_GenerateKey bx ev tr = (Inr (pub, priv), tr1) \<longrightarrow> net_Dial ev addr = None \<longrightarrow>
      conn_Write ev (calls is_write tr) pub = (n, werr) \<longrightarrow> n < 32 \<longrightarrow>
      (\<exists>e. fst (Dial bx ev addr tr) = Inl e \<and> short_transfer_error werr e)) \<and>
   (box_GenerateKey bx ev tr = (Inr (pub, priv), tr1) \<longrightarrow> net_Dial ev addr = None \<longrightarrow>
      conn_Write ev (calls is_write tr) pub = (32, None) \<longrightarrow>
      conn_Read ev (calls is_read tr) 32 = (data, rerr) \<longrightarrow> length data < 32 \<longrightarrow>
      (\<exists>e. fst (Dial bx ev addr tr) = Inl e \<and> short_transfer_error rerr e)) \<and>
   (net_Accept ev = None \<longrightarrow>
      conn_Read ev (calls is_read tr) 32 = (data, rerr) \<longrightarrow> length data < 32 \<longrightarrow>
      (\<exists>e. fst (Serve_handshake bx ev (tr @ [EvAccept])) = Inl e \<and>
           Serve bx ev tr = (Return (Some e), tr @ [EvAccept, EvRead 32, EvClose]) \<and>
           short_transfer_error rerr e)) \<and>
   (net_Accept ev = None \<longrightarrow>
      conn_Read ev (calls is_read tr) 32 = (data, None) \<longrightarrow> length data = 32 \<longrightarrow>
      box_GenerateKey bx ev (tr @ [EvAccept, EvRead 32]) = (Inr (pub, priv), tr1) \<longrightarrow>
      conn_Write ev (calls is_write tr) pub = (n, werr) \<longrightarrow> n < 32 \<longrightarrow>
      (\<exists>e. fst (Serve_handshake bx ev (tr @ [EvAccept])) = Inl e \<and>
           Serve bx ev tr =
             (Return (Some e), tr @ [EvAccept, EvRead 32, EvRand 32, EvWrite pub, EvClose]) \<and>
           short_transfer_error werr e))"
proof (intro conjI impI)
  assume "box_GenerateKey bx ev tr = (Inr (pub, priv), tr1)" "net_Dial ev addr = None"
    "conn_Write ev (calls is_write tr) pub = (n, werr)" "n < 32"
  from Dial_short_write [OF this]
  show "\<exists>e. fst (Dial bx ev addr tr) = Inl e \<and> short_transfer_error werr e"
    by auto
next
  assume "box_GenerateKey bx ev tr = (Inr (pub, priv), tr1)" "net_Dial ev addr = None"
    "conn_Write ev (calls is_write tr) pub = (32, None)"
    "conn_Read ev (calls is_read tr) 32 = (data, rerr)" "length data < 32"
  from Dial_short_read [OF this]
  show "\<exists>e. fst (Dial bx ev addr tr) = Inl e \<and> short_transfer_error rerr e"
    by auto
next
  assume acc: "net_Accept ev = None"
    and rd: "conn_Read ev (calls is_read tr) 32 = (data, rerr)" and short: "length data < 32"
  from rd have "conn_Read ev (calls is_read (tr @ [EvAccept])) 32 = (data, rerr)"
    by (simp add: calls_def)
  from Serve_handshake_short_read [OF this short, of bx]
  obtain e where e: "Serve_handshake bx ev (tr @ [EvAccept]) = (Inl e, (tr @ [EvAccept]) @ [EvRead 32])"
    "short_transfer_error rerr e"
    by auto
  with Serve_handshake_error [OF acc e(1)]
  show "\<exists>e. fst (Serve_handshake bx ev (tr @ [EvAccept])) = Inl e \<and>
           Serve bx ev tr = (Return (Some e), tr @ [EvAccept, EvRead 32, EvClose]) \<and>
           short_transfer_error rerr e"
    by auto
next
  assume acc: "net_Accept ev = None"
    and rd: "conn_Read ev (calls is_read tr) 32 = (data, None)" and full: "length data = 32"
    and gk: "box_GenerateKey bx ev (tr @ [EvAccept, EvRead 32]) = (Inr (pub, priv), tr1)"
    and wr: "conn_Write ev (calls is_write tr) pub = (n, werr)" and short: "n < 32"
  from rd have rd': "conn_Read ev (calls is_read (tr @ [EvAccept])) 32 = (data, None)"
    by (simp add: calls_def)
  from gk have gk': "box_GenerateKey bx ev ((tr @ [EvAccept]) @ [EvRead 32]) = (Inr (pub, priv), tr1)"
    by simp
  from wr have wr': "conn_Write ev (calls is_write (tr @ [EvAccept])) pub = (n, werr)"
    by (simp add: calls_def)
  from Serve_handshake_short_write [OF rd' full gk' wr' short]
  obtain e where e: "Serve_handshake bx ev (tr @ [EvAccept]) =
      (Inl e, (tr @ [EvAccept]) @ [EvRead 32, EvRand 32, EvWrite pub])"
    "short_transfer_error werr e"
    by auto
  with Serve_handshake_error [OF acc e(1)]
  show "\<exists>e. fst (Serve_handshake bx ev (tr @ [EvAccept])) = Inl e \<and>
           Serve bx ev tr =
             (Return (Some e), tr @ [EvAccept, EvRead 32, EvRand 32, EvWrite pub, EvClose]) \<and>
           short_transfer_error werr e"
    by auto
qed

theorem handshake_short_transfer_witness:
  "fst (Dial toy_box (script keyA [] [(16, None)]) ''localhost:8080'' [])
     = Inl (Errorf ''partial write'') \<and>
   fst (Dial toy_box (script keyA [(take 16 keyB, None)] []) ''localhost:8080'' [])
     = Inl (Errorf ''partial read'') \<and>
   Serve toy_box (script keyB [(take 16 keyA, None)] []) []
     = (Return (Some (Errorf ''illegal key size'')), [EvAccept, EvRead 32, EvClose]) \<and>
   Serve toy_box (script keyB [(keyA, None)] [(16, None)]) []
     = (Return (Some (Errorf ''partial pub key write'')),
        [EvAccept, EvRead 32, EvRand 32, EvWrite keyB, EvClose]) \<and>
   HandshakeIncomplete (Errorf ''partial write'') \<and>
   HandshakeIncomplete (Errorf ''partial read'') \<and>
   HandshakeIncomplete (Errorf ''illegal key size'') \<and>
   HandshakeIncomplete (Errorf ''partial pub key write'')"
proof -
  let ?w = "script keyA [] [(16, None)]"
  let ?r = "script keyA [(take 16 keyB, None)] []"
  let ?sr = "script keyB [(take 16 keyA, None)] []"
  let ?sw = "script keyB [(keyA, None)] [(16, None)]"
  have dial: "net_Dial ?w ''localhost:8080'' = None" "net_Dial ?r ''localhost:8080'' = None"
    and acc: "net_Accept ?sr = None" "net_Accept ?sw = None"
    by (simp_all add: script_def)
  have w16: "conn_Write ?w (calls is_write []) keyA = (16, None)"
    "conn_Write ?sw (calls is_write []) keyB = (16, None)"
    and w32: "conn_Write ?r (calls is_write []) keyA = (32, None)"
    and r16: "conn_Read ?r (calls is_read []) 32 = (take 16 keyB, None)"
    "conn_Read ?sr (calls is_read []) 32 = (take 16 keyA, None)"
    and r32: "conn_Read ?sw (calls is_read []) 32 = (keyA, None)"
    by (simp_all add: script_def calls_def keyA_def)
  have len: "(16::nat) < 32" "length (take 16 keyB) < 32" "length (take 16 keyA) < 32"
    "length keyA = 32"
    by (simp_all add: keyA_def keyB_def)
  have gk: "box_GenerateKey toy_box ?sw ([] @ [EvAccept, EvRead 32])
      = (Inr (keyB, keyB), ([] @ [EvAccept, EvRead 32]) @ [EvRand 32])"
    by (rule run_GenerateKey)
  note T1 = handshake_short_transfer [THEN conjunct1, rule_format]
    and T2 = handshake_short_transfer [THEN conjunct2, THEN conjunct1, rule_format]
    and T3 = handshake_short_transfer [THEN conjunct2, THEN conjunct2, THEN conjunct1, rule_format]
    and T4 = handshake_short_transfer [THEN conjunct2, THEN conjunct2, THEN conjunct2, rule_format]
  from T1 [OF run_GenerateKey(1) dial(1) w16(1) len(1)]
  have "\<exists>e. fst (Dial toy_box ?w ''localhost:8080'' []) = Inl e \<and> short_transfer_error None e" .
  moreover
  from T2 [OF run_GenerateKey(1) dial(2) w32 r16(1) len(2)]
  have "\<exists>e. fst (Dial toy_box ?r ''localhost:8080'' []) = Inl e \<and> short_transfer_error None e" .
  moreover
  from T3 [OF acc(1) r16(2) len(3)]
  have "\<exists>e. fst (Serve_handshake toy_box ?sr ([] @ [EvAccept])) = Inl e \<and>
          Serve toy_box ?sr [] = (Return (Some e), [] @ [EvAccept, EvRead 32, EvClose]) \<and>
          short_transfer_error None e" .
  moreover
  from T4 [OF acc(2) r32 len(4) gk w16(2) len(1)]
  have "\<exists>e. fst (Serve_handshake toy_box ?sw ([] @ [EvAccept])) = Inl e \<and>
          Serve toy_box ?sw [] =
            (Return (Some e), [] @ [EvAccept, EvRead 32, EvRand 32, EvWrite keyB, EvClose]) \<and>
          short_transfer_error None e" .
  ultimately show ?thesis
    using run_Dial_partial_write run_Dial_partial_read run_Serve_illegal_key_size
      run_Serve_partial_write
    by (simp add: HandshakeIncomplete_def)
qed


text \<open>
  Claim C5 as stated fails: the peer closes the connection before it sends its key, the
  read of \<^verbatim>\<open>Dial\<close> transfers 0 of the 32 bytes and returns \<^verbatim>\<open>io.EOF\<close>, and
  \<^verbatim>\<open>Dial\<close> returns \<^verbatim>\<open>io.EOF\<close> itself (the error check comes before the
  check of the count), which is none of the handshake's errors.
\<close>

theorem Dial_EOF_not_HandshakeIncomplete:
  "length (fst (conn_Read (script keyA [([], Some EOF)] []) 0 KeySize)) < 32 \<and>
   fst (Dial toy_box (script keyA [([], Some EOF)] []) ''localhost:8080'' []) = Inl EOF \<and>
   \<not> HandshakeIncomplete EOF"
  by (simp add: Dial_def box_GenerateKey_def io_ReadFull_rand_def w_Write_def r_Read_def
      script_def calls_def KeySize_def HandshakeIncomplete_def toy_box_def keyA_def fit_def)


section \<open>Serve\<close>

text \<open>
  What \<^verbatim>\<open>Serve\<close> does when each of its steps returns: an error of the accept, of
  the handshake, of the \<^verbatim>\<open>Read\<close> or of the \<^verbatim>\<open>Write\<close> ends the sequence
  and is what \<^verbatim>\<open>Serve\<close> returns; after a \<^verbatim>\<open>Read\<close> with count \<open>k\<close> and
  no error, \<^verbatim>\<open>Write\<close> gets exactly the first \<open>k\<close> bytes of the buffer; when
  \<^verbatim>\<open>Serve\<close> returns \<^verbatim>\<open>nil\<close> the underlying operations were one accept,
  the two transfers of the handshake, one read, one random nonce, one write and the close.
\<close>

lemma Serve_steps:
  assumes "open_length bx"
  shows
   "(net_Accept ev = Some e \<longrightarrow> Serve bx ev tr = (Return (Some e), tr @ [EvAccept])) \<and>
    (net_Accept ev = None \<longrightarrow> Serve_handshake bx ev (tr @ [EvAccept]) = (Inl e, tr1) \<longrightarrow>
       Serve bx ev tr = (Return (Some e), tr1 @ [EvClose])) \<and>
    (net_Accept ev = None \<longrightarrow> Serve_handshake bx ev (tr @ [EvAccept]) = (Inr (r, w), tr1) \<longrightarrow>
       sR_Read bx ev r (replicate bufSize 0) tr1 = (Return (k, Some e, b), tr2) \<longrightarrow>
       Serve bx ev tr = (Return (Some e), tr2 @ [EvClose])) \<and>
    (net_Accept ev = None \<longrightarrow> Serve_handshake bx ev (tr @ [EvAccept]) = (Inr (r, w), tr1) \<longrightarrow>
       sR_Read bx ev r (replicate bufSize 0) tr1 = (Return (k, None, b), tr2) \<longrightarrow>
       sW_Write bx ev w (take k b) tr2 = ((j, werr), tr3) \<longrightarrow>
       k \<le> bufSize \<and> length (take k b) = k \<and>
       Serve bx ev tr = (Return werr, tr3 @ [EvClose])) \<and>
    (fst (Serve bx ev tr) = Return None \<longrightarrow>
       (\<exists>pub frame. snd (Serve bx ev tr) =
          tr @ [EvAccept, EvRead 32, EvRand 32, EvWrite pub,
                EvRead (bufSize + 24 + box_Overhead bx), EvRand 24, EvWrite frame, EvClose]))"
proof -
  have c1: "Serve bx ev tr = (Return (Some e), tr @ [EvAccept])" if "net_Accept ev = Some e"
    using that by (simp add: Serve_def)
  have c2: "Serve bx ev tr = (Return (Some e), tr1 @ [EvClose])"
    if "net_Accept ev = None" "Serve_handshake bx ev (tr @ [EvAccept]) = (Inl e, tr1)"
    using that by (rule Serve_handshake_error)
  have c3: "Serve bx ev tr = (Return (Some e), tr2 @ [EvClose])"
    if "net_Accept ev = None" "Serve_handshake bx ev (tr @ [EvAccept]) = (Inr (r, w), tr1)"
      "sR_Read bx ev r (replicate bufSize 0) tr1 = (Return (k, Some e, b), tr2)"
    using that by (simp add: Serve_def Serve_echo_read_error)
  have c4: "k \<le> bufSize \<and> length (take k b) = k \<and>
      Serve bx ev tr = (Return werr, tr3 @ [EvClose])"
    if acc: "net_Accept ev = None"
      and hs: "Serve_handshake bx ev (tr @ [EvAccept]) = (Inr (r, w), tr1)"
      and rd: "sR_Read bx ev r (replicate bufSize 0) tr1 = (Return (k, None, b), tr2)"
      and wr: "sW_Write bx ev w (take k b) tr2 = ((j, werr), tr3)"
    using Serve_echo_write [OF assms rd wr] acc hs by (simp add: Serve_def)
  have c5: "\<exists>pub frame. snd (Serve bx ev tr) =
          tr @ [EvAccept, EvRead 32, EvRand 32, EvWrite pub,
                EvRead (bufSize + 24 + box_Overhead bx), EvRand 24, EvWrite frame, EvClose]"
    if "fst (Serve bx ev tr) = Return None"
    using that by (rule Serve_success_trace)
  from c1 c2 c3 c4 c5 show ?thesis by blast
qed


lemma Serve_steps_run:
  "open_length toy_box \<and>
   Serve toy_box echo_env [] =
     (Return None,
      [EvAccept, EvRead 32, EvRand 32, EvWrite keyB, EvRead 32808, EvRand 24,
       EvWrite echo_frame, EvClose]) \<and>
   take 5 (hello @ replicate 32763 0) = hello"
proof -
  have acc: "net_Accept echo_env = None"
    by (simp add: echo_env_def script_def)
  have hs: "Serve_handshake toy_box echo_env ([] @ [EvAccept]) =
     (Inr (NewSecureReader keyB keyA, NewSecureWriter keyB keyA),
      [EvAccept, EvRead 32, EvRand 32, EvWrite keyB])"
    unfolding echo_env_def by (rule run_Serve_handshake)
  from Serve_steps [OF toy_open_length, THEN conjunct2, THEN conjunct2, THEN conjunct2,
      THEN conjunct1, rule_format, OF acc hs run_Serve_Read run_Serve_Write]
  have "Serve toy_box echo_env [] =
     (Return None,
      [EvAccept, EvRead 32, EvRand 32, EvWrite keyB, EvRead 32808, EvRand 24,
       EvWrite echo_frame] @ [EvClose])"
    by simp
  with toy_open_length show ?thesis
    by (simp add: hello_def)
qed


text \<open>
  Claim C8. The claim is that \<^verbatim>\<open>Serve\<close> performs one \<^verbatim>\<open>Read\<close> and one
  \<^verbatim>\<open>Write\<close> and that any error at any step ends the sequence and is returned to
  the caller. The run below is a peer that completes the handshake and closes the
  connection: the underlying read of the one \<^verbatim>\<open>Read\<close> stores nothing and returns
  \<^verbatim>\<open>io.EOF\<close>, \<^verbatim>\<open>Read\<close> panics at \<^verbatim>\<open>bs[NonceSize:n]\<close>, and
  \<^verbatim>\<open>Serve\<close> closes the connection and panics: no error is returned.
\<close>

theorem Serve_EOF_panics:
  "conn_Read (script keyB [(keyA, None)] []) 1 (bufSize + NonceSize + box_Overhead toy_box)
     = ([], Some EOF) \<and>
   Serve toy_box (script keyB [(keyA, None)] []) [] =
     (Panic, [EvAccept, EvRead 32, EvRand 32, EvWrite keyB, EvRead 32808, EvClose])"
proof -
  let ?ev = "script keyB [(keyA, None)] []"
  have acc: "net_Accept ?ev = None"
    and rd: "conn_Read ?ev 1 (bufSize + NonceSize + box_Overhead toy_box) = ([], Some EOF)"
    by (simp_all add: script_def)
  have hs: "Serve_handshake toy_box ?ev ([] @ [EvAccept]) =
     (Inr (NewSecureReader keyB keyA, NewSecureWriter keyB keyA),
      [EvAccept, EvRead 32, EvRand 32, EvWrite keyB])"
    by (rule run_Serve_handshake)
  have "Serve_echo toy_box ?ev (NewSecureReader keyB keyA) (NewSecureWriter keyB keyA)
      [EvAccept, EvRead 32, EvRand 32, EvWrite keyB] =
     (Panic, [EvAccept, EvRead 32, EvRand 32, EvWrite keyB, EvRead 32808])"
    by (simp add: Serve_echo_def run_Serve_Read_EOF)
  with acc hs rd show ?thesis
    by (simp add: Serve_def)
qed


end
